theory Spec2Isabelle
  imports Main
begin

section \<open>The native interface\<close>

text \<open>
  The three exported functions of \<^verbatim>\<open>dir.cc\<close> and \<^verbatim>\<open>rename.cc\<close> call into libuv
  (\<^verbatim>\<open>uv_fs_mkdir\<close>, \<^verbatim>\<open>uv_fs_scandir\<close>, \<^verbatim>\<open>uv_fs_scandir_next\<close>, \<^verbatim>\<open>uv_fs_rename\<close>), into
  the C library or libbsd (\<^verbatim>\<open>setmode\<close>, \<^verbatim>\<open>getmode\<close>) and into \<^verbatim>\<open>utils.h\<close> (\<^verbatim>\<open>stop_for_error\<close>). None of
  these is defined in the two source files, so the model takes them as parameters: a
  record of functions over a world \<open>'w\<close> (the file system, as far as the library is
  concerned). Every call is blocking (the callback argument is \<^verbatim>\<open>NULL\<close>), so a call is a
  function from the world to a result code and the world afterwards.
  \<^verbatim>\<open>uv_fs_req_cleanup\<close> only frees what a request holds and has no counterpart here.
\<close>

type_synonym mode_t = nat

text \<open>\<^verbatim>\<open>uv_dirent_t\<close>: the name of a directory entry and its \<^verbatim>\<open>uv_dirent_type_t\<close> tag.\<close>

record uv_dirent_t =
  name :: string
  type :: int

text \<open>
  What a request filled by \<^verbatim>\<open>uv_fs_scandir\<close> still has to hand out: for each further call
  of \<^verbatim>\<open>uv_fs_scandir_next(&req, &e)\<close> the code it returns and the contents of \<^verbatim>\<open>e\<close> after
  the call (what \<^verbatim>\<open>e\<close> held before, when the call does not write it). Once the list is
  used up the call returns \<^verbatim>\<open>UV_EOF\<close>.
\<close>

type_synonym scandir_req = "(int \<times> uv_dirent_t) list"

record ('w, 's) native =
  setmode :: "string \<Rightarrow> 's option"
  getmode :: "'s \<Rightarrow> mode_t \<Rightarrow> mode_t"
  uv_fs_mkdir :: "'w \<Rightarrow> string \<Rightarrow> mode_t \<Rightarrow> int \<times> 'w"
  uv_fs_scandir :: "'w \<Rightarrow> string \<Rightarrow> (int \<times> scandir_req) \<times> 'w"
  uv_fs_rename :: "'w \<Rightarrow> string \<Rightarrow> string \<Rightarrow> int \<times> 'w"
  UV_EEXIST :: int
  UV_EOF :: int
  is_error :: "int \<Rightarrow> bool"

text \<open>
  \<open>setmode\<close> returns a pointer, \<^verbatim>\<open>NULL\<close> (here \<open>None\<close>) when the mode string does not
  parse; \<open>getmode\<close> computes a mode from what such a pointer points to, so it is a function
  of the set a pointer other than \<^verbatim>\<open>NULL\<close> stands for. \<open>is_error\<close> is the test under which
  \<^verbatim>\<open>stop_for_error\<close> raises.
\<close>

text \<open>
  How a call can end other than by returning: \<open>Stop\<close> is the failure \<^verbatim>\<open>stop_for_error\<close>
  raises; \<open>Out_of_range\<close> is a read outside an array and \<open>Null_pointer\<close> a read through
  \<^verbatim>\<open>NULL\<close>, the two places where the source runs into undefined behaviour and does not
  get any further.
\<close>

datatype error =
    Stop string string int
  | Out_of_range
  | Null_pointer

text \<open>
  Modelled from the spec: \<^verbatim>\<open>stop_for_error(message, path, code)\<close> of \<^verbatim>\<open>utils.h\<close>, which is
  not among the sources. It turns a native error code into a failure of the call that
  carries the message, the path and the code (from which the native error description is
  taken), and does nothing for a code that is no error.
\<close>

definition stop_for_error :: "('w, 's) native \<Rightarrow> string \<Rightarrow> string \<Rightarrow> int \<Rightarrow> error option" where
  "stop_for_error lib message p code =
     (if is_error lib code then Some (Stop message p code) else None)"

section \<open>\<^verbatim>\<open>mkdir_\<close>\<close>

text \<open>
  An Isabelle name cannot end in an underscore: the exported functions \<^verbatim>\<open>mkdir_\<close>,
  \<^verbatim>\<open>scandir_\<close> and \<^verbatim>\<open>file_rename_\<close> are \<open>mkdir_impl\<close>, \<open>scandir_impl\<close> and
  \<open>file_rename_impl\<close> here.
\<close>

text \<open>The \<^verbatim>\<open>for\<close> loop of \<^verbatim>\<open>mkdir_\<close> over the paths, with the mode already computed.\<close>

fun mkdir_loop :: "('w, 's) native \<Rightarrow> mode_t \<Rightarrow> string list \<Rightarrow> 'w \<Rightarrow> (error + unit) \<times> 'w" where
  "mkdir_loop lib mode [] w = (Inr (), w)"
| "mkdir_loop lib mode (p # ps) w =
     (case uv_fs_mkdir lib w p mode of
        (fd, w') \<Rightarrow>
          if fd \<noteq> UV_EEXIST lib then
            (case stop_for_error lib ''Failed to make directory'' p fd of
               Some err \<Rightarrow> (Inl err, w')
             | None \<Rightarrow> mkdir_loop lib mode ps w')
          else mkdir_loop lib mode ps w')"

text \<open>
  Lines 17 and 18 come before the loop: \<^verbatim>\<open>out\<close> is handed to \<^verbatim>\<open>getmode\<close> unchecked, and
  \<^verbatim>\<open>getmode(NULL, 0)\<close> reads through the null pointer, which ends the call there, before
  any \<^verbatim>\<open>uv_fs_mkdir\<close>.
\<close>

definition mkdir_impl :: "('w, 's) native \<Rightarrow> string list \<Rightarrow> string \<Rightarrow> 'w \<Rightarrow> (error + unit) \<times> 'w" where
  "mkdir_impl lib path mode_str w =
     (let out = setmode lib mode_str in
      case out of
        None \<Rightarrow> (Inl Null_pointer, w)
      | Some s \<Rightarrow>
          (let mode = getmode lib s 0
           in mkdir_loop lib mode path w))"

section \<open>\<^verbatim>\<open>file_rename_\<close>\<close>

definition file_rename_impl :: "('w, 's) native \<Rightarrow> string \<Rightarrow> string \<Rightarrow> 'w \<Rightarrow> (error + unit) \<times> 'w" where
  "file_rename_impl lib path new_path w =
     (case uv_fs_rename lib w path new_path of (_, w') \<Rightarrow> (Inr (), w'))"

section \<open>\<^verbatim>\<open>scandir_\<close>\<close>

text \<open>The test of line 52: no filter, or the entry's type tag is the filter value.\<close>

definition type_matches :: "int \<Rightarrow> uv_dirent_t \<Rightarrow> bool" where
  "type_matches file_type e \<longleftrightarrow> file_type = - 1 \<or> type e = file_type"

text \<open>
  Lines 57 to 65: the string pushed for an entry name. For the empty path
  \<^verbatim>\<open>p[strlen(p) - 1]\<close> is a read in front of the string, which is \<open>Out_of_range\<close> here.
\<close>

definition join_path :: "string \<Rightarrow> string \<Rightarrow> error + string" where
  "join_path p nm =
     (if p = ''.'' then Inr nm
      else if p = [] then Inl Out_of_range
      else if last p = CHR ''/'' then Inr (p @ nm)
      else Inr (p @ [CHR ''/''] @ nm))"

text \<open>
  The \<^verbatim>\<open>while\<close> loop over one directory stream. Each iteration first looks at \<^verbatim>\<open>e\<close> and
  pushes, and only then hands \<^verbatim>\<open>next_res\<close> to \<^verbatim>\<open>stop_for_error\<close>.
\<close>

fun scandir_next_loop ::
  "('w, 's) native \<Rightarrow> string \<Rightarrow> int \<Rightarrow> scandir_req \<Rightarrow> string list \<Rightarrow> error + string list" where
  "scandir_next_loop lib p file_type [] files = Inr files"
| "scandir_next_loop lib p file_type ((next_res, e) # req) files =
     (if next_res = UV_EOF lib then Inr files
      else
        (case (if type_matches file_type e
               then (case join_path p (name e) of
                       Inl err \<Rightarrow> Inl err
                     | Inr f \<Rightarrow> Inr (files @ [f]))
               else Inr files) of
           Inl err \<Rightarrow> Inl err
         | Inr files' \<Rightarrow>
             (case stop_for_error lib ''Failed to search directory'' p next_res of
                Some err \<Rightarrow> Inl err
              | None \<Rightarrow> scandir_next_loop lib p file_type req files')))"

text \<open>
  The \<^verbatim>\<open>for\<close> loop over the paths. \<open>out\<close> is the list of buckets (\<open>None\<close> for an element
  that is still \<^verbatim>\<open>NULL\<close>), \<open>files\<close> the one vector all paths push to.
\<close>

fun scandir_loop ::
  "('w, 's) native \<Rightarrow> int \<Rightarrow> string list \<Rightarrow> nat \<Rightarrow> 'w \<Rightarrow> string list option list \<Rightarrow> string list
     \<Rightarrow> (error + string list option list \<times> string list) \<times> 'w" where
  "scandir_loop lib file_type [] i w out files = (Inr (out, files), w)"
| "scandir_loop lib file_type (p # ps) i w out files =
     (case uv_fs_scandir lib w p of
        ((res, req), w') \<Rightarrow>
          (case stop_for_error lib ''Failed to search directory'' p res of
             Some err \<Rightarrow> (Inl err, w')
           | None \<Rightarrow>
               (case scandir_next_loop lib p file_type req files of
                  Inl err \<Rightarrow> (Inl err, w')
                | Inr files' \<Rightarrow>
                    scandir_loop lib file_type ps (Suc i) w' (out[i := Some files']) files')))"

text \<open>
  Line 76: what leaves the function is \<open>files\<close> alone; the buckets in \<open>out\<close> are dropped.
\<close>

fun scandir_return ::
  "(error + string list option list \<times> string list) \<times> 'w \<Rightarrow> (error + string list) \<times> 'w" where
  "scandir_return (Inl err, w) = (Inl err, w)"
| "scandir_return (Inr (out, files), w) = (Inr files, w)"

text \<open>
  \<open>type_v\<close> is the integer vector \<^verbatim>\<open>type\<close>, of which element 0 is read (outside the vector
  when it is empty); \<open>recurse\<close> is accepted and not used.
\<close>

definition scandir_impl ::
  "('w, 's) native \<Rightarrow> string list \<Rightarrow> int list \<Rightarrow> bool \<Rightarrow> 'w \<Rightarrow> (error + string list) \<times> 'w" where
  "scandir_impl lib path type_v recurse w =
     (let out = replicate (length path) None in
      case type_v of
        [] \<Rightarrow> (Inl Out_of_range, w)
      | file_type # _ \<Rightarrow> scandir_return (scandir_loop lib file_type path 0 w out []))"

section \<open>Vocabulary for the statements\<close>

text \<open>
  The world after the creation requests for the paths \<open>ps\<close>, issued in order with one
  mode, and after the scan requests for \<open>ps\<close>.
\<close>

definition mkdir_requests :: "('w, 's) native \<Rightarrow> mode_t \<Rightarrow> string list \<Rightarrow> 'w \<Rightarrow> 'w" where
  "mkdir_requests lib mode ps w = foldl (\<lambda>w' q. snd (uv_fs_mkdir lib w' q mode)) w ps"

definition scandir_requests :: "('w, 's) native \<Rightarrow> string list \<Rightarrow> 'w \<Rightarrow> 'w" where
  "scandir_requests lib ps w = foldl (\<lambda>w' q. snd (uv_fs_scandir lib w' q)) w ps"

text \<open>
  The entries a directory stream hands out before it reports \<^verbatim>\<open>UV_EOF\<close>, and whether
  every step up to there returned a code that is no error.
\<close>

definition entries :: "('w, 's) native \<Rightarrow> scandir_req \<Rightarrow> uv_dirent_t list" where
  "entries lib req = map snd (takeWhile (\<lambda>s. fst s \<noteq> UV_EOF lib) req)"

definition steps_ok :: "('w, 's) native \<Rightarrow> scandir_req \<Rightarrow> bool" where
  "steps_ok lib req \<longleftrightarrow>
     list_all (\<lambda>s. \<not> is_error lib (fst s)) (takeWhile (\<lambda>s. fst s \<noteq> UV_EOF lib) req)"

text \<open>
  What \<^verbatim>\<open>uv_fs_scandir\<close> answers for each path of a call, in order: the path, the result
  code and the stream.
\<close>

fun opened :: "('w, 's) native \<Rightarrow> string list \<Rightarrow> 'w \<Rightarrow> (string \<times> int \<times> scandir_req) list" where
  "opened lib [] w = []"
| "opened lib (p # ps) w =
     (case uv_fs_scandir lib w p of ((res, req), w') \<Rightarrow> (p, res, req) # opened lib ps w')"

text \<open>
  The joining rule in the words of the specification: the bare name for the path
  \<^verbatim>\<open>.\<close>, plain concatenation for a path that ends with the separator, and one separator in
  between otherwise. \<open>join_path\<close> above is the source's version of it.
\<close>

definition spec_join :: "string \<Rightarrow> string \<Rightarrow> string" where
  "spec_join p nm =
     (if p = ''.'' then nm
      else if p \<noteq> [] \<and> last p = CHR ''/'' then p @ nm
      else p @ ''/'' @ nm)"

text \<open>The filtered, joined entries of one path, and all scanned entries with their path.\<close>

definition joined_entries ::
  "('w, 's) native \<Rightarrow> int \<Rightarrow> string \<times> int \<times> scandir_req \<Rightarrow> string list" where
  "joined_entries lib ft x =
     (case x of (p, res, req) \<Rightarrow>
        map (\<lambda>e. spec_join p (name e)) (filter (type_matches ft) (entries lib req)))"

definition scanned :: "('w, 's) native \<Rightarrow> string list \<Rightarrow> 'w \<Rightarrow> (string \<times> uv_dirent_t) list" where
  "scanned lib ps w =
     concat (map (\<lambda>(p, res, req). map (Pair p) (entries lib req)) (opened lib ps w))"

section \<open>A small library to run the functions on\<close>

text \<open>
  The world is the list of directories that exist. Creating an existing directory gives
  \<^verbatim>\<open>EEXIST\<close> (-17), creating the empty path \<^verbatim>\<open>ENOENT\<close> (-2). The paths \<^verbatim>\<open>/tmp\<close>, \<^verbatim>\<open>/tmp/\<close>
  and \<^verbatim>\<open>.\<close> hold a regular file \<^verbatim>\<open>a\<close> (tag 1) and a directory \<^verbatim>\<open>b\<close> (tag 2); the stream of
  \<^verbatim>\<open>/dev\<close> fails with \<^verbatim>\<open>EIO\<close> (-5) at its second step; no other path can be opened. The only
  mode string that parses is \<^verbatim>\<open>755\<close>, to the set that makes the mode 493 (octal 755).
\<close>

definition sample_lib :: "(string list, nat) native" where
  "sample_lib =
     \<lparr> setmode = (\<lambda>s. if s = ''755'' then Some 493 else None),
       getmode = (\<lambda>m omode. m),
       uv_fs_mkdir = (\<lambda>w p mode.
          if p \<in> set w then (- 17, w) else if p = [] then (- 2, w) else (0, w @ [p])),
       uv_fs_scandir = (\<lambda>w p.
          if p = ''/tmp'' \<or> p = ''/tmp/'' \<or> p = ''.''
          then ((2, [(0, \<lparr>name = ''a'', type = 1\<rparr>), (0, \<lparr>name = ''b'', type = 2\<rparr>)]), w)
          else if p = ''/dev''
          then ((2, [(0, \<lparr>name = ''c'', type = 1\<rparr>), (- 5, \<lparr>name = ''c'', type = 1\<rparr>)]), w)
          else ((- 2, []), w)),
       uv_fs_rename = (\<lambda>w p q. if p \<in> set w then (0, q # removeAll p w) else (- 2, w)),
       UV_EEXIST = - 17,
       UV_EOF = - 4095,
       is_error = (\<lambda>c. c < 0) \<rparr>"

lemma sample_lib_simps:
  "setmode sample_lib s = (if s = ''755'' then Some 493 else None)"
  "getmode sample_lib m omode = m"
  "uv_fs_mkdir sample_lib w p mode =
     (if p \<in> set w then (- 17, w) else if p = [] then (- 2, w) else (0, w @ [p]))"
  "uv_fs_scandir sample_lib w p =
     (if p = ''/tmp'' \<or> p = ''/tmp/'' \<or> p = ''.''
      then ((2, [(0, \<lparr>name = ''a'', type = 1\<rparr>), (0, \<lparr>name = ''b'', type = 2\<rparr>)]), w)
      else if p = ''/dev''
      then ((2, [(0, \<lparr>name = ''c'', type = 1\<rparr>), (- 5, \<lparr>name = ''c'', type = 1\<rparr>)]), w)
      else ((- 2, []), w))"
  "uv_fs_rename sample_lib w p q = (if p \<in> set w then (0, q # removeAll p w) else (- 2, w))"
  "UV_EEXIST sample_lib = - 17"
  "UV_EOF sample_lib = - 4095"
  "is_error sample_lib c \<longleftrightarrow> c < 0"
  by (simp_all add: sample_lib_def)

lemmas run_simps = sample_lib_simps stop_for_error_def join_path_def type_matches_def
  entries_def steps_ok_def spec_join_def joined_entries_def scanned_def
  mkdir_requests_def scandir_requests_def

section \<open>Directory creation\<close>

lemma mkdir_loop_append:
  "mkdir_loop lib mode (ps @ qs) w =
     (case mkdir_loop lib mode ps w of
        (Inl err, w') \<Rightarrow> (Inl err, w')
      | (Inr u, w') \<Rightarrow> mkdir_loop lib mode qs w')"
  by (induction ps arbitrary: w) (auto split: prod.splits option.splits sum.splits)

lemma mkdir_loop_world:
  "mkdir_loop lib mode ps w = (Inr u, w1) \<Longrightarrow> w1 = mkdir_requests lib mode ps w"
  unfolding mkdir_requests_def
  by (induction ps arbitrary: w) (auto split: prod.splits option.splits sum.splits if_splits)

text \<open>
  Claim C1. When the mode string parses and the native creation call for a path \<open>p\<close>
  answers \<^verbatim>\<open>UV_EEXIST\<close>, that path counts as done: after the paths \<open>pre\<close> before it have
  been created, the call on \<open>pre @ p # post\<close> raises nothing for \<open>p\<close> and is the call on
  the remaining paths \<open>post\<close>, run in the world the answer leaves.
\<close>

theorem mkdir_eexist_is_success:
  assumes "setmode lib mode_str = Some s"
      and "mkdir_impl lib pre mode_str w = (Inr (), w1)"
      and "uv_fs_mkdir lib w1 p (getmode lib s 0) = (UV_EEXIST lib, w2)"
  shows "mkdir_impl lib (pre @ p # post) mode_str w = mkdir_impl lib post mode_str w2"
  using assms by (simp add: mkdir_impl_def mkdir_loop_append)

theorem mkdir_eexist_is_success_witness:
  "setmode sample_lib ''755'' = Some 493
   \<and> mkdir_impl sample_lib [''/a''] ''755'' [''/b''] = (Inr (), [''/b'', ''/a''])
   \<and> uv_fs_mkdir sample_lib [''/b'', ''/a''] ''/b'' (getmode sample_lib 493 0)
        = (UV_EEXIST sample_lib, [''/b'', ''/a''])
   \<and> mkdir_impl sample_lib ([''/a''] @ ''/b'' # [''/c'']) ''755'' [''/b'']
        = (Inr (), [''/b'', ''/a'', ''/c''])"
  using mkdir_eexist_is_success [of sample_lib "''755''" 493 "[''/a'']" "[''/b'']"
      "[''/b'', ''/a'']" "''/b''" "[''/b'', ''/a'']" "[''/c'']"]
  by (simp add: run_simps mkdir_impl_def)

text \<open>
  Claim C9. The paths are handled in sequence order and the call aborts at the first
  path whose creation fails with an error other than \<^verbatim>\<open>UV_EEXIST\<close>: when the paths \<open>pre\<close>
  went through (which they only do with a mode string that parsed, to the set \<open>s\<close>) and the request for \<open>p\<close> answers such a code, the call on \<open>pre @ p # post\<close>
  fails with that path and code, whatever \<open>post\<close> is, and the world it leaves is the one
  after the requests for \<open>pre\<close> and for \<open>p\<close>, in that order: what the earlier requests
  created is still there, and no request was issued for a path of \<open>post\<close>.
\<close>

theorem mkdir_fail_fast:
  assumes "setmode lib mode_str = Some s"
      and "mkdir_impl lib pre mode_str w = (Inr (), w1)"
      and "uv_fs_mkdir lib w1 p (getmode lib s 0) = (fd, w2)"
      and "fd \<noteq> UV_EEXIST lib" and "is_error lib fd"
  shows "mkdir_impl lib (pre @ p # post) mode_str w =
           (Inl (Stop ''Failed to make directory'' p fd), w2)
       \<and> w2 = mkdir_requests lib (getmode lib s 0) (pre @ [p]) w"
proof -
  let ?mode = "getmode lib s 0"
  from assms(1,2) have pre: "mkdir_loop lib ?mode pre w = (Inr (), w1)"
    by (simp add: mkdir_impl_def)
  then have w1: "w1 = mkdir_requests lib ?mode pre w"
    by (rule mkdir_loop_world)
  have "mkdir_loop lib ?mode (p # post) w1 = (Inl (Stop ''Failed to make directory'' p fd), w2)"
    using assms(3-5) by (simp add: stop_for_error_def)
  with pre assms(1) have res: "mkdir_impl lib (pre @ p # post) mode_str w =
      (Inl (Stop ''Failed to make directory'' p fd), w2)"
    by (simp add: mkdir_impl_def mkdir_loop_append)
  have "w2 = mkdir_requests lib ?mode (pre @ [p]) w"
    using w1 assms(3) by (simp add: mkdir_requests_def)
  with res show ?thesis by simp
qed

theorem mkdir_fail_fast_witness:
  "setmode sample_lib ''755'' = Some 493
   \<and> mkdir_impl sample_lib [''/a'', ''/b''] ''755'' [''/b''] = (Inr (), [''/b'', ''/a''])
   \<and> uv_fs_mkdir sample_lib [''/b'', ''/a''] '''' (getmode sample_lib 493 0)
        = (- 2, [''/b'', ''/a''])
   \<and> - 2 \<noteq> UV_EEXIST sample_lib \<and> is_error sample_lib (- 2)
   \<and> mkdir_impl sample_lib ([''/a'', ''/b''] @ '''' # [''/c'']) ''755'' [''/b'']
        = (Inl (Stop ''Failed to make directory'' '''' (- 2)), [''/b'', ''/a''])"
  using mkdir_fail_fast [of sample_lib "''755''" 493 "[''/a'', ''/b'']" "[''/b'']"
      "[''/b'', ''/a'']" "''''" "- 2" "[''/b'', ''/a'']" "[''/c'']"]
  by (simp add: run_simps mkdir_impl_def)

text \<open>
  The mode is computed once, from the mode string alone, before the loop. A call that
  gets through has parsed its mode string, and whatever the outcome of the loop, the
  world it leaves is the one after the creation requests for the first \<open>k\<close> paths, each
  issued with that one mode.
\<close>

lemma mkdir_impl_mode:
  "setmode lib mode_str = Some s \<Longrightarrow>
   mkdir_impl lib path mode_str w = mkdir_loop lib (getmode lib s 0) path w"
  by (simp add: mkdir_impl_def)

lemma mkdir_impl_Inr_parsed:
  "mkdir_impl lib path mode_str w = (Inr u, w1) \<Longrightarrow> \<exists>s. setmode lib mode_str = Some s"
  by (cases "setmode lib mode_str") (simp_all add: mkdir_impl_def)

lemma mkdir_loop_prefix:
  "\<exists>k\<le>length ps. snd (mkdir_loop lib mode ps w) = mkdir_requests lib mode (take k ps) w"
proof (induction ps arbitrary: w)
  case Nil
  show ?case by (simp add: mkdir_requests_def)
next
  case (Cons p ps)
  obtain fd w1 where m: "uv_fs_mkdir lib w p mode = (fd, w1)"
    by (cases "uv_fs_mkdir lib w p mode")
  from Cons.IH [of w1] obtain k where k: "k \<le> length ps"
    "snd (mkdir_loop lib mode ps w1) = mkdir_requests lib mode (take k ps) w1"
    by blast
  show ?case
  proof (cases "fd \<noteq> UV_EEXIST lib \<and> is_error lib fd")
    case True
    with m have "snd (mkdir_loop lib mode (p # ps) w) = mkdir_requests lib mode (take 1 (p # ps)) w"
      by (simp add: stop_for_error_def mkdir_requests_def)
    then show ?thesis
      by (intro exI [of _ 1]) simp
  next
    case False
    with m k(2) have "snd (mkdir_loop lib mode (p # ps) w) =
        mkdir_requests lib mode (take (Suc k) (p # ps)) w"
      by (auto simp: stop_for_error_def mkdir_requests_def)
    with k(1) show ?thesis
      by (intro exI [of _ "Suc k"]) simp
  qed
qed

text \<open>
  Claim C5. The mode string is parsed once, before any creation request. When it does
  not parse, \<^verbatim>\<open>setmode\<close> returns \<^verbatim>\<open>NULL\<close> and the call ends in line 18, in \<^verbatim>\<open>getmode\<close>'s read
  through that pointer: it fails before the loop, no creation request is issued and the
  world is unchanged. When it parses, every creation request the call issues carries the
  one mode made from it: the world left is the one after the requests for the first \<open>k\<close>
  paths with that mode.
\<close>

theorem mkdir_mode_parsed_up_front:
  "(setmode lib mode_str = None \<longrightarrow>
      mkdir_impl lib path mode_str w = (Inl Null_pointer, w))
   \<and> (setmode lib mode_str = Some s \<longrightarrow>
      (\<exists>k\<le>length path. snd (mkdir_impl lib path mode_str w) =
         mkdir_requests lib (getmode lib s 0) (take k path) w))"
proof (intro conjI impI)
  assume "setmode lib mode_str = None"
  then show "mkdir_impl lib path mode_str w = (Inl Null_pointer, w)"
    by (simp add: mkdir_impl_def)
next
  assume "setmode lib mode_str = Some s"
  then have "mkdir_impl lib path mode_str w = mkdir_loop lib (getmode lib s 0) path w"
    by (rule mkdir_impl_mode)
  with mkdir_loop_prefix [of path lib "getmode lib s 0" w]
  show "\<exists>k\<le>length path. snd (mkdir_impl lib path mode_str w) =
         mkdir_requests lib (getmode lib s 0) (take k path) w"
    by simp
qed

theorem mkdir_mode_parsed_up_front_witness:
  "setmode sample_lib ''rwx?'' = None
   \<and> mkdir_impl sample_lib [''/a'', ''/b''] ''rwx?'' [] = (Inl Null_pointer, [])
   \<and> setmode sample_lib ''755'' = Some 493
   \<and> mkdir_impl sample_lib [''/a'', ''/b''] ''755'' [] = (Inr (), [''/a'', ''/b''])
   \<and> (\<exists>k\<le>length [''/a'', ''/b'']. snd (mkdir_impl sample_lib [''/a'', ''/b''] ''755'' []) =
         mkdir_requests sample_lib (getmode sample_lib 493 0) (take k [''/a'', ''/b'']) [])"
  using mkdir_mode_parsed_up_front [of sample_lib "''rwx?''" "[''/a'', ''/b'']" "[]" 493]
    mkdir_mode_parsed_up_front [of sample_lib "''755''" "[''/a'', ''/b'']" "[]" 493]
  by (simp add: sample_lib_simps stop_for_error_def mkdir_impl_def)

section \<open>Renaming\<close>

text \<open>
  Claim C2. \<^verbatim>\<open>file_rename_\<close> issues one rename request and reports nothing: for every
  pair of paths the outcome is success, whatever code the native call answers, and the
  world afterwards is the one that single request leaves.
\<close>

theorem file_rename_never_raises:
  "file_rename_impl lib path new_path w = (Inr (), snd (uv_fs_rename lib w path new_path))"
  by (simp add: file_rename_impl_def split: prod.splits)

section \<open>Directory scanning: one stream\<close>

lemma type_matches_fun: "type_matches ft = (\<lambda>e. ft = - 1 \<or> type e = ft)"
  by (simp add: fun_eq_iff type_matches_def)

lemma join_path_Inr: "join_path p nm = Inr f \<Longrightarrow> f = spec_join p nm"
  by (auto simp: join_path_def spec_join_def split: if_splits)

lemma join_path_nonempty: "p \<noteq> [] \<Longrightarrow> join_path p nm = Inr (spec_join p nm)"
  by (auto simp: join_path_def spec_join_def)

text \<open>A stream loop that returns has pushed the joined names of the matching entries.\<close>

lemma next_loop_Inr:
  "scandir_next_loop lib p ft req files = Inr files' \<Longrightarrow>
   files' = files @ map (\<lambda>e. spec_join p (name e)) (filter (type_matches ft) (entries lib req))"
proof (induction req arbitrary: files)
  case Nil
  then show ?case by (simp add: entries_def)
next
  case (Cons s req)
  obtain c e where s: "s = (c, e)" by (cases s)
  show ?case
  proof (cases "c = UV_EOF lib")
    case True
    with Cons.prems s show ?thesis by (simp add: entries_def)
  next
    case False
    show ?thesis
    proof (cases "type_matches ft e")
      case True
      with Cons.prems s False obtain f where f: "join_path p (name e) = Inr f"
        and rest: "scandir_next_loop lib p ft req (files @ [f]) = Inr files'"
        by (auto split: sum.splits option.splits)
      from Cons.IH [OF rest] join_path_Inr [OF f] True False s show ?thesis
        by (simp add: entries_def)
    next
      case nm: False
      with Cons.prems s False have rest: "scandir_next_loop lib p ft req files = Inr files'"
        by (auto split: sum.splits option.splits)
      from Cons.IH [OF rest] nm False s show ?thesis
        by (simp add: entries_def)
    qed
  qed
qed

text \<open>
  It does return when no step reports an error and the path is not empty (or nothing
  matches, so that no name is joined).
\<close>

lemma next_loop_ok:
  "steps_ok lib req \<Longrightarrow> p \<noteq> [] \<or> filter (type_matches ft) (entries lib req) = [] \<Longrightarrow>
   scandir_next_loop lib p ft req files =
     Inr (files @ map (\<lambda>e. spec_join p (name e)) (filter (type_matches ft) (entries lib req)))"
proof (induction req arbitrary: files)
  case Nil
  then show ?case by (simp add: entries_def)
next
  case (Cons s req)
  obtain c e where s: "s = (c, e)" by (cases s)
  show ?case
  proof (cases "c = UV_EOF lib")
    case True
    with s show ?thesis by (simp add: entries_def)
  next
    case False
    with Cons.prems s have ok: "\<not> is_error lib c" and rest: "steps_ok lib req"
      by (simp_all add: steps_ok_def)
    show ?thesis
    proof (cases "type_matches ft e")
      case True
      with Cons.prems(2) s False have ne: "p \<noteq> []" by (simp add: entries_def)
      then have IH: "scandir_next_loop lib p ft req (files @ [spec_join p (name e)]) =
          Inr ((files @ [spec_join p (name e)]) @
               map (\<lambda>e. spec_join p (name e)) (filter (type_matches ft) (entries lib req)))"
        using Cons.IH [OF rest] by simp
      with True False s ok ne show ?thesis
        by (simp add: entries_def join_path_nonempty stop_for_error_def)
    next
      case nm: False
      with Cons.prems(2) s False
      have "p \<noteq> [] \<or> filter (type_matches ft) (entries lib req) = []"
        by (simp add: entries_def)
      from Cons.IH [OF rest this] nm False s ok show ?thesis
        by (simp add: entries_def stop_for_error_def)
    qed
  qed
qed

text \<open>The first step that reports an error ends the loop with that error.\<close>

lemma next_loop_fail:
  assumes "list_all (\<lambda>s. fst s \<noteq> UV_EOF lib \<and> \<not> is_error lib (fst s)) ok"
      and "c \<noteq> UV_EOF lib" and "is_error lib c" and "p \<noteq> []"
  shows "scandir_next_loop lib p ft (ok @ (c, e) # rest) files =
           Inl (Stop ''Failed to search directory'' p c)"
  using assms
proof (induction ok arbitrary: files)
  case Nil
  then show ?case
    by (simp add: join_path_nonempty stop_for_error_def)
next
  case (Cons s ok)
  obtain c' e' where s: "s = (c', e')" by (cases s)
  with Cons show ?case
    by (simp add: join_path_nonempty stop_for_error_def)
qed

section \<open>Directory scanning: the loop over the paths\<close>

text \<open>The buckets and the index have no part in what is returned.\<close>

lemma scandir_loop_buckets:
  "scandir_return (scandir_loop lib ft ps i w out files) =
   scandir_return (scandir_loop lib ft ps j w out2 files)"
proof (induction ps arbitrary: i j w out out2 files)
  case Nil
  show ?case by simp
next
  case (Cons p ps)
  show ?case
    by (auto split: prod.splits option.splits sum.splits intro: Cons.IH)
qed

lemma scandir_loop_append:
  "scandir_return (scandir_loop lib ft (ps @ qs) i w out files) =
     (case scandir_return (scandir_loop lib ft ps i w out files) of
        (Inl err, w') \<Rightarrow> (Inl err, w')
      | (Inr files', w') \<Rightarrow> scandir_return (scandir_loop lib ft qs j w' out2 files'))"
proof (induction ps arbitrary: i w out files)
  case Nil
  show ?case by (simp add: scandir_loop_buckets [of lib ft qs i w out files j out2])
next
  case (Cons p ps)
  show ?case
    by (simp add: Cons.IH split: prod.splits option.splits sum.splits)
qed

lemma scandir_impl_append:
  "scandir_impl lib (ps @ qs) type_v recurse w =
     (case scandir_impl lib ps type_v recurse w of
        (Inl err, w') \<Rightarrow> (Inl err, w')
      | (Inr files', w') \<Rightarrow>
          (case type_v of [] \<Rightarrow> (Inl Out_of_range, w')
           | file_type # _ \<Rightarrow> scandir_return (scandir_loop lib file_type qs 0 w' [] files')))"
proof (cases type_v)
  case Nil
  then show ?thesis by (simp add: scandir_impl_def)
next
  case (Cons ft tys)
  have a: "scandir_return (scandir_loop lib ft (ps @ qs) 0 w (replicate (length (ps @ qs)) None) []) =
     (case scandir_return (scandir_loop lib ft ps 0 w (replicate (length (ps @ qs)) None) []) of
        (Inl err, w') \<Rightarrow> (Inl err, w')
      | (Inr files', w') \<Rightarrow> scandir_return (scandir_loop lib ft qs 0 w' [] files'))"
    by (rule scandir_loop_append)
  have b: "scandir_return (scandir_loop lib ft ps 0 w (replicate (length (ps @ qs)) None) []) =
           scandir_return (scandir_loop lib ft ps 0 w (replicate (length ps) None) [])"
    by (rule scandir_loop_buckets)
  show ?thesis
    unfolding scandir_impl_def Let_def Cons list.case a b ..
qed

lemma scandir_loop_Inr:
  "scandir_return (scandir_loop lib ft ps i w out files) = (Inr files', w') \<Longrightarrow>
   files' = files @ concat (map (joined_entries lib ft) (opened lib ps w))
   \<and> w' = scandir_requests lib ps w"
proof (induction ps arbitrary: i w out files)
  case Nil
  then show ?case by (simp add: scandir_requests_def)
next
  case (Cons p ps)
  obtain res req w1 where o: "uv_fs_scandir lib w p = ((res, req), w1)"
    by (metis prod.exhaust)
  from Cons.prems o obtain files1 where
    n: "scandir_next_loop lib p ft req files = Inr files1" and
    r: "scandir_return (scandir_loop lib ft ps (Suc i) w1 (out[i := Some files1]) files1) =
          (Inr files', w')"
    by (auto split: option.splits sum.splits)
  from Cons.IH [OF r] next_loop_Inr [OF n] o show ?case
    by (simp add: joined_entries_def scandir_requests_def)
qed

lemma scandir_loop_ok:
  "list_all (\<lambda>(p, res, req). \<not> is_error lib res \<and> steps_ok lib req \<and>
      (p \<noteq> [] \<or> filter (type_matches ft) (entries lib req) = [])) (opened lib ps w) \<Longrightarrow>
   scandir_return (scandir_loop lib ft ps i w out files) =
     (Inr (files @ concat (map (joined_entries lib ft) (opened lib ps w))),
      scandir_requests lib ps w)"
proof (induction ps arbitrary: i w out files)
  case Nil
  then show ?case by (simp add: scandir_requests_def)
next
  case (Cons p ps)
  obtain res req w1 where o: "uv_fs_scandir lib w p = ((res, req), w1)"
    by (metis prod.exhaust)
  with Cons.prems have ok: "\<not> is_error lib res" "steps_ok lib req"
      "p \<noteq> [] \<or> filter (type_matches ft) (entries lib req) = []"
    and rest: "list_all (\<lambda>(p, res, req). \<not> is_error lib res \<and> steps_ok lib req \<and>
      (p \<noteq> [] \<or> filter (type_matches ft) (entries lib req) = [])) (opened lib ps w1)"
    by simp_all
  from next_loop_ok [OF ok(2,3)] Cons.IH [OF rest] o ok(1) show ?case
    by (simp add: joined_entries_def scandir_requests_def stop_for_error_def)
qed

lemma scandir_impl_Inr:
  assumes "scandir_impl lib paths (ft # tys) recurse w = (Inr files, w')"
  shows "files = concat (map (joined_entries lib ft) (opened lib paths w))"
    and "w' = scandir_requests lib paths w"
  using scandir_loop_Inr [of lib ft paths 0 w "replicate (length paths) None" "[]" files w'] assms
  by (simp_all add: scandir_impl_def)

lemma filter_scanned:
  "map (\<lambda>(p, e). spec_join p (name e))
     (filter (\<lambda>(p, e). ft = - 1 \<or> type e = ft)
        (concat (map (\<lambda>(p, res, req). map (Pair p) (entries lib req)) xs)))
   = concat (map (joined_entries lib ft) xs)"
  by (induction xs) (auto simp: joined_entries_def type_matches_fun filter_map comp_def)

section \<open>Directory scanning: the claims\<close>

text \<open>
  Claim C3. For every input path \<open>p\<close>, the strings a scan of \<open>p\<close> returns are the names of
  the entries that pass the type filter, each joined by the three-case rule: the bare
  name when \<open>p\<close> is \<^verbatim>\<open>.\<close>; \<open>p\<close> followed at once by the name when \<open>p\<close> ends with \<^verbatim>\<open>/\<close> (no
  second separator); \<open>p\<close>, one \<^verbatim>\<open>/\<close> and the name otherwise. (For the empty path the
  source's test \<^verbatim>\<open>p[strlen(p) - 1]\<close> reads in front of the string; a scan that gets there
  returns no strings in the model, so the statement, which is about the strings
  returned, says nothing of it.)
\<close>

theorem scandir_join_rule:
  assumes "uv_fs_scandir lib w p = ((res, req), w1)"
      and "scandir_impl lib [p] (ft # tys) recurse w = (Inr files, w')"
  shows "files =
     map (\<lambda>e. if p = ''.'' then name e
               else if p \<noteq> [] \<and> last p = CHR ''/'' then p @ name e
               else p @ ''/'' @ name e)
       (filter (type_matches ft) (entries lib req))"
  using scandir_impl_Inr(1) [OF assms(2)] assms(1)
  by (simp add: joined_entries_def spec_join_def)

theorem scandir_join_rule_witness:
  "scandir_impl sample_lib [''.''] [- 1] False [] = (Inr [''a'', ''b''], [])
   \<and> scandir_impl sample_lib [''/tmp/''] [- 1] False [] = (Inr [''/tmp/a'', ''/tmp/b''], [])
   \<and> scandir_impl sample_lib [''/tmp''] [- 1] False [] = (Inr [''/tmp/a'', ''/tmp/b''], [])"
  using
    scandir_join_rule [of sample_lib "[]" "''.''" 2
      "[(0, \<lparr>name = ''a'', type = 1\<rparr>), (0, \<lparr>name = ''b'', type = 2\<rparr>)]" "[]" "- 1" "[]" False
      "[''a'', ''b'']" "[]"]
    scandir_join_rule [of sample_lib "[]" "''/tmp/''" 2
      "[(0, \<lparr>name = ''a'', type = 1\<rparr>), (0, \<lparr>name = ''b'', type = 2\<rparr>)]" "[]" "- 1" "[]" False
      "[''/tmp/a'', ''/tmp/b'']" "[]"]
    scandir_join_rule [of sample_lib "[]" "''/tmp''" 2
      "[(0, \<lparr>name = ''a'', type = 1\<rparr>), (0, \<lparr>name = ''b'', type = 2\<rparr>)]" "[]" "- 1" "[]" False
      "[''/tmp/a'', ''/tmp/b'']" "[]"]
  by (simp add: run_simps scandir_impl_def)

text \<open>
  Claim C4. A scan fails, with the path and the native code, as soon as opening a
  directory stream or stepping it answers an error (end of stream is none): when the
  paths \<open>pre\<close> were scanned and gave the strings \<open>files1\<close>, and then either opening \<open>p\<close>
  answers the error \<open>code\<close>, or \<open>p\<close> opens and, after the steps \<open>ok\<close> without error, a step
  answers the error \<open>code\<close>, the call on \<open>pre @ p # post\<close> is that failure and nothing else:
  the strings of \<open>files1\<close> and those pushed for \<open>p\<close> so far are not returned. (A stepping
  error is stated for a non-empty \<open>p\<close>: the loop joins the name in \<^verbatim>\<open>e\<close> before it looks at
  the step's result, and for the empty path that join reads in front of the string.)
\<close>

theorem scandir_failure_is_fatal:
  assumes "scandir_impl lib pre (ft # tys) recurse w = (Inr files1, w1)"
      and "uv_fs_scandir lib w1 p = ((res, req), w2)"
      and "code = res \<and> is_error lib res
           \<or> \<not> is_error lib res \<and> p \<noteq> [] \<and> req = ok @ (code, e) # rest
             \<and> list_all (\<lambda>s. fst s \<noteq> UV_EOF lib \<and> \<not> is_error lib (fst s)) ok
             \<and> code \<noteq> UV_EOF lib \<and> is_error lib code"
  shows "scandir_impl lib (pre @ p # post) (ft # tys) recurse w =
           (Inl (Stop ''Failed to search directory'' p code), w2)"
proof -
  have "scandir_return (scandir_loop lib ft (p # post) 0 w1 [] files1) =
          (Inl (Stop ''Failed to search directory'' p code), w2)"
    using assms(3)
  proof
    assume "code = res \<and> is_error lib res"
    with assms(2) show ?thesis by (simp add: stop_for_error_def)
  next
    assume a: "\<not> is_error lib res \<and> p \<noteq> [] \<and> req = ok @ (code, e) # rest
             \<and> list_all (\<lambda>s. fst s \<noteq> UV_EOF lib \<and> \<not> is_error lib (fst s)) ok
             \<and> code \<noteq> UV_EOF lib \<and> is_error lib code"
    then have "scandir_next_loop lib p ft req files1 =
        Inl (Stop ''Failed to search directory'' p code)"
      using next_loop_fail [of lib ok code p ft e rest files1] by simp
    with assms(2) a show ?thesis by (simp add: stop_for_error_def)
  qed
  with assms(1) show ?thesis
    by (simp add: scandir_impl_append)
qed

theorem scandir_failure_is_fatal_witness:
  "scandir_impl sample_lib [''/tmp''] [- 1] False [] = (Inr [''/tmp/a'', ''/tmp/b''], [])
   \<and> scandir_impl sample_lib ([''/tmp''] @ ''/nope'' # [''.'']) [- 1] False []
       = (Inl (Stop ''Failed to search directory'' ''/nope'' (- 2)), [])
   \<and> scandir_impl sample_lib ([''/tmp''] @ ''/dev'' # [''.'']) [- 1] False []
       = (Inl (Stop ''Failed to search directory'' ''/dev'' (- 5)), [])"
  using
    scandir_failure_is_fatal [of sample_lib "[''/tmp'']" "- 1" "[]" False "[]"
      "[''/tmp/a'', ''/tmp/b'']" "[]" "''/nope''" "- 2" "[]" "[]" "- 2" "[]"
      "\<lparr>name = ''c'', type = 1\<rparr>" "[]" "[''.'']"]
    scandir_failure_is_fatal [of sample_lib "[''/tmp'']" "- 1" "[]" False "[]"
      "[''/tmp/a'', ''/tmp/b'']" "[]" "''/dev''" 2
      "[(0, \<lparr>name = ''c'', type = 1\<rparr>), (- 5, \<lparr>name = ''c'', type = 1\<rparr>)]" "[]" "- 5"
      "[(0, \<lparr>name = ''c'', type = 1\<rparr>)]" "\<lparr>name = ''c'', type = 1\<rparr>" "[]" "[''.'']"]
  by (simp add: run_simps scandir_impl_def)

text \<open>
  Claim C6. The strings a scan returns are those of exactly the scanned entries for
  which the filter value is -1 or the entry's type tag equals the filter value, in the
  order scanned: an entry with another tag is left out (a directory under the filter for
  regular files, a regular file under the filter for directories), and every entry is kept
  when the filter is -1.
\<close>

theorem scandir_filter_iff:
  assumes "scandir_impl lib paths (ft # tys) recurse w = (Inr files, w')"
  shows "files =
     map (\<lambda>(p, e). spec_join p (name e))
       (filter (\<lambda>(p, e). ft = - 1 \<or> type e = ft) (scanned lib paths w))"
  using scandir_impl_Inr(1) [OF assms]
  by (simp add: scanned_def filter_scanned)

theorem scandir_filter_iff_witness:
  "scandir_impl sample_lib [''/tmp'', ''.''] [2] False [] = (Inr [''/tmp/b'', ''b''], [])
   \<and> [''/tmp/b'', ''b''] =
       map (\<lambda>(p, e). spec_join p (name e))
         (filter (\<lambda>(p, e). (2::int) = - 1 \<or> type e = 2) (scanned sample_lib [''/tmp'', ''.''] []))"
  using
    scandir_filter_iff [of sample_lib "[''/tmp'', ''.'']" 2 "[]" False "[]" "[''/tmp/b'', ''b'']" "[]"]
  by (simp add: run_simps scandir_impl_def)

text \<open>
  Claim C7. What a scan returns is one flat sequence: the concatenation, in the order
  of the input paths, of each path's filtered and joined entries. Each matching entry
  contributes one string, and nothing of the per-path buckets is in the result.
\<close>

theorem scandir_flat:
  assumes "scandir_impl lib paths (ft # tys) recurse w = (Inr files, w')"
  shows "files = concat (map (joined_entries lib ft) (opened lib paths w))"
  using assms by (rule scandir_impl_Inr(1))

theorem scandir_flat_witness:
  "scandir_impl sample_lib [''/tmp'', ''.'', ''/tmp/''] [- 1] False []
     = (Inr [''/tmp/a'', ''/tmp/b'', ''a'', ''b'', ''/tmp/a'', ''/tmp/b''], [])
   \<and> [''/tmp/a'', ''/tmp/b'', ''a'', ''b'', ''/tmp/a'', ''/tmp/b'']
     = concat (map (joined_entries sample_lib (- 1))
         (opened sample_lib [''/tmp'', ''.'', ''/tmp/''] []))"
  using
    scandir_flat [of sample_lib "[''/tmp'', ''.'', ''/tmp/'']" "- 1" "[]" False "[]"
      "[''/tmp/a'', ''/tmp/b'', ''a'', ''b'', ''/tmp/a'', ''/tmp/b'']" "[]"]
  by (simp add: run_simps scandir_impl_def)

text \<open>
  Claim C8. The recurse flag has no effect: for the same paths, filter and world, a scan
  gives the same result and leaves the same world (so it made the same native calls)
  whatever the flag is.
\<close>

theorem scandir_recurse_ignored:
  "scandir_impl lib path type_v recurse w = scandir_impl lib path type_v recurse' w"
  by (simp add: scandir_impl_def)

text \<open>
  Claim C10. A filter value that is neither -1 nor the type tag of any scanned entry is
  not rejected: when no native call reports an error, the scan succeeds and returns the
  empty sequence.
\<close>

theorem scandir_unknown_filter:
  assumes "ft \<noteq> - 1"
      and "list_all (\<lambda>(p, res, req). \<not> is_error lib res \<and> steps_ok lib req \<and>
             list_all (\<lambda>e. type e \<noteq> ft) (entries lib req)) (opened lib paths w)"
  shows "scandir_impl lib paths (ft # tys) recurse w = (Inr [], scandir_requests lib paths w)"
proof -
  have none: "filter (type_matches ft) es = []" if "list_all (\<lambda>e. type e \<noteq> ft) es" for es
    using that assms(1) by (induction es) (simp_all add: type_matches_def)
  from assms(2) have ok: "list_all (\<lambda>(p, res, req). \<not> is_error lib res \<and> steps_ok lib req \<and>
      (p \<noteq> [] \<or> filter (type_matches ft) (entries lib req) = [])) (opened lib paths w)"
    by (rule list.pred_mono_strong) (auto simp: none)
  from assms(2) have "list_all (\<lambda>x. joined_entries lib ft x = []) (opened lib paths w)"
    by (rule list.pred_mono_strong) (auto simp: none joined_entries_def)
  then have "concat (map (joined_entries lib ft) (opened lib paths w)) = []"
    by (induction "opened lib paths w" arbitrary: paths w) (simp_all add: list_all_iff)
  with scandir_loop_ok [OF ok, of 0 "replicate (length paths) None" "[]"] show ?thesis
    by (simp add: scandir_impl_def)
qed

theorem scandir_unknown_filter_witness:
  "(9::int) \<noteq> - 1
   \<and> list_all (\<lambda>(p, res, req). \<not> is_error sample_lib res \<and> steps_ok sample_lib req \<and>
             list_all (\<lambda>e. type e \<noteq> 9) (entries sample_lib req))
        (opened sample_lib [''/tmp'', ''.''] [])
   \<and> scandir_impl sample_lib [''/tmp'', ''.''] [9] True [] = (Inr [], [])"
  using scandir_unknown_filter [of 9 sample_lib "[''/tmp'', ''.'']" "[]" "[]" True]
  by (simp add: run_simps scandir_impl_def)

end
